theory Spec2Isabelle
  imports Complex_Main "HOL-Library.Multiset" "HOL-Library.List_Lexorder" "HOL-Library.Char_ord"
begin

section \<open>Values of the runtime\<close>

text \<open>
  The program is TypeScript; its payloads are typed \<^verbatim>\<open>any\<close>, so what flows through them is
  only known at run time. \<open>jsval\<close> holds the values the program puts there: strings,
  numbers, \<^verbatim>\<open>null\<close> and \<^verbatim>\<open>undefined\<close> (the value of a property that is missing).
  Numbers are only stored and copied, never computed with; they are reals here. A
  payload is a plain object of such values, as every payload the program builds is.
  Strings are compared by \<^verbatim>\<open><\<close> as the language does: lexicographically, code unit by
  code unit, a proper prefix being smaller (the order of \<open>List_Lexorder\<close> over
  \<open>Char_ord\<close>).
\<close>

datatype jsval = JUndefined | JNull | JStr string | JNum real

text \<open>A plain object \<^verbatim>\<open>{k: v, ...}\<close>: a finite mapping from property names to values.\<close>

type_synonym obj = "string \<rightharpoonup> jsval"

text \<open>\<^verbatim>\<open>o.k\<close>: reading a property that is missing gives \<^verbatim>\<open>undefined\<close>.\<close>

definition getProp :: "obj \<Rightarrow> string \<Rightarrow> jsval" where
  "getProp ob k = (case ob k of None \<Rightarrow> JUndefined | Some v \<Rightarrow> v)"

text \<open>\<^verbatim>\<open>a ?? b\<close>: \<open>b\<close> when \<open>a\<close> is \<^verbatim>\<open>null\<close> or \<^verbatim>\<open>undefined\<close>, else \<open>a\<close>.\<close>

definition nullish :: "jsval \<Rightarrow> jsval \<Rightarrow> jsval" where
  "nullish a b = (if a = JUndefined \<or> a = JNull then b else a)"

text \<open>\<^verbatim>\<open>{ ...prev, ...cur }\<close>: a new object with the properties of \<open>prev\<close>, then those of
  \<open>cur\<close>, which win on a shared name.\<close>

definition spread :: "obj \<Rightarrow> obj \<Rightarrow> obj" where
  "spread prev cur = prev ++ cur"

text \<open>
  \<^verbatim>\<open>Array.prototype.sort(comparefn)\<close> belongs to the runtime, not to the repository. The
  program runs on Node.js, whose engine (V8, since its version 7.0) sorts with TimSort:
  runs are made by binary insertion and then merged, and every decision is taken on one
  question only, asked about an element \<open>y\<close> and an element \<open>x\<close> that stands in front of
  it: is \<^verbatim>\<open>comparefn(y, x) < 0\<close>? Only then does \<open>y\<close> go in front of \<open>x\<close>; any other answer
  (\<open>0\<close> or positive alike) leaves \<open>y\<close> behind \<open>x\<close>. The model keeps that reading of the
  comparator and inserts one element at a time: each element in turn is the pivot, placed
  into the already sorted prefix in front of the first \<open>x\<close> with
  \<^verbatim>\<open>comparefn(pivot, x) < 0\<close>. The comparator is a parameter: the embedding of \<open>getById\<close>
  passes the one of the source. (An engine that asked the other way round, whether
  \<^verbatim>\<open>comparefn(x, y) > 0\<close>, would be another model: the language leaves the order open
  when the comparator never answers \<open>0\<close>.)
\<close>

fun sort_insert :: "('a \<Rightarrow> 'a \<Rightarrow> int) \<Rightarrow> 'a \<Rightarrow> 'a list \<Rightarrow> 'a list" where
  "sort_insert comparefn pivot [] = [pivot]"
| "sort_insert comparefn pivot (x # xs) =
     (if comparefn pivot x < 0 then pivot # x # xs else x # sort_insert comparefn pivot xs)"

definition Array_sort :: "('a \<Rightarrow> 'a \<Rightarrow> int) \<Rightarrow> 'a list \<Rightarrow> 'a list" where
  "Array_sort comparefn xs = foldl (\<lambda>sorted pivot. sort_insert comparefn pivot sorted) [] xs"

section \<open>Domain events\<close>

text \<open>
  \<^verbatim>\<open>interface IEvent { nom; changes; createdAt; aggregateId }\<close>: the plain record kept in
  the store. The payload type \<open>'p\<close> is a parameter, since the event store and the event
  classes only pass \<open>changes\<close> along: it is \<open>obj\<close> where the payload is read by value, and
  an address into a heap of objects where a claim depends on the payload being shared.
  \<open>aggregateId\<close> is a \<open>jsval\<close>: \<open>planifierLe\<close> copies \<open>this.id\<close> into it, which is
  \<^verbatim>\<open>undefined\<close> on an aggregate rehydrated from an empty state.
\<close>

record 'p IEvent =
  s_nom :: string
  s_changes :: 'p
  s_createdAt :: string
  s_aggregateId :: jsval

text \<open>
  \<^verbatim>\<open>abstract class DomainEvent\<close> with its two subclasses. The constructor arguments are
  in the order of the source: \<open>aggregateId\<close>, \<open>changes\<close>, \<open>createdAt\<close>; \<open>nom\<close> is the constant
  each subclass assigns.
\<close>

datatype 'p DomainEvent =
    FormationCreee (aggregateId: jsval) (changes: 'p) (createdAt: string)
  | FormationPlanifiee (aggregateId: jsval) (changes: 'p) (createdAt: string)

fun nom :: "'p DomainEvent \<Rightarrow> string" where
  "nom (FormationCreee a c t) = ''FORMATION_CREEE''"
| "nom (FormationPlanifiee a c t) = ''FORMATION_PLANIFIEE''"

datatype error = Error string

text \<open>
  The constructor of \<open>DomainEvent\<close>:
  \<^verbatim>\<open>this.createdAt = createdAt ?? (new Date()).toISOString()\<close>. The optional argument is an
  \<open>option\<close>; \<open>now\<close> is what the clock would give at that moment.
\<close>

definition DomainEvent_ctor ::
  "(jsval \<Rightarrow> 'p \<Rightarrow> string \<Rightarrow> 'p DomainEvent) \<Rightarrow> string \<Rightarrow> jsval \<Rightarrow> 'p \<Rightarrow> string option \<Rightarrow> 'p DomainEvent" where
  "DomainEvent_ctor cls now aggId chg created =
     cls aggId chg (case created of None \<Rightarrow> now | Some t \<Rightarrow> t)"

definition FormationCreee_creer :: "string \<Rightarrow> jsval \<Rightarrow> 'p \<Rightarrow> 'p DomainEvent" where
  "FormationCreee_creer now aggId data = DomainEvent_ctor FormationCreee now aggId data None"

definition FormationPlanifiee_creer :: "string \<Rightarrow> jsval \<Rightarrow> 'p \<Rightarrow> 'p DomainEvent" where
  "FormationPlanifiee_creer now aggId data = DomainEvent_ctor FormationPlanifiee now aggId data None"

definition DomainEvent_toState :: "'p DomainEvent \<Rightarrow> 'p IEvent" where
  "DomainEvent_toState e =
     \<lparr>s_nom = nom e, s_changes = changes e, s_createdAt = createdAt e,
      s_aggregateId = aggregateId e\<rparr>"

text \<open>The message of the \<^verbatim>\<open>Error\<close> thrown on an unknown tag:
  \<^verbatim>\<open>Type d'evenement inconnu\<close>, with its two accented letters (code units E9 and E8).\<close>

definition unknown_message :: string where
  "unknown_message =
     ''Type d'' @ [CHR 0x27, CHR 0xE9] @ ''v'' @ [CHR 0xE8] @ ''nement inconnu''"

text \<open>
  \<open>fromState\<close>: the \<^verbatim>\<open>switch\<close> on \<open>e.nom\<close>, then the \<^verbatim>\<open>throw\<close>. The constructors are called with
  all three arguments. \<open>now\<close> is the clock again, there for the constructor to read if it
  had to: it is a parameter of every function that builds events.
\<close>

definition DomainEvent_fromState :: "string \<Rightarrow> 'p IEvent \<Rightarrow> error + 'p DomainEvent" where
  "DomainEvent_fromState now e =
     (if s_nom e = ''FORMATION_CREEE''
      then Inr (DomainEvent_ctor FormationCreee now (s_aggregateId e) (s_changes e)
                  (Some (s_createdAt e)))
      else if s_nom e = ''FORMATION_PLANIFIEE''
      then Inr (DomainEvent_ctor FormationPlanifiee now (s_aggregateId e) (s_changes e)
                  (Some (s_createdAt e)))
      else Inl (Error unknown_message))"

section \<open>The event store\<close>

record 'p InMemoryEventStore =
  store_events :: "'p IEvent list"

definition InMemoryEventStore_new :: "'p InMemoryEventStore" where
  "InMemoryEventStore_new = \<lparr>store_events = []\<rparr>"

definition InMemoryEventStore_add :: "'p DomainEvent \<Rightarrow> 'p InMemoryEventStore \<Rightarrow> 'p InMemoryEventStore" where
  "InMemoryEventStore_add event st =
     st\<lparr>store_events := store_events st @ [DomainEvent_toState event]\<rparr>"

text \<open>\<^verbatim>\<open>this.events.map(e => DomainEvent.fromState(e))\<close>: the first record that cannot be
  rebuilt throws, and the exception leaves \<open>map\<close>.\<close>

fun map_fromState :: "string \<Rightarrow> 'p IEvent list \<Rightarrow> error + 'p DomainEvent list" where
  "map_fromState now [] = Inr []"
| "map_fromState now (r # rs) =
     (case DomainEvent_fromState now r of
        Inl err \<Rightarrow> Inl err
      | Inr e \<Rightarrow> (case map_fromState now rs of Inl err \<Rightarrow> Inl err | Inr es \<Rightarrow> Inr (e # es)))"

definition InMemoryEventStore_list :: "string \<Rightarrow> 'p InMemoryEventStore \<Rightarrow> error + 'p DomainEvent list" where
  "InMemoryEventStore_list now st = map_fromState now (store_events st)"

section \<open>The aggregate\<close>

text \<open>\<^verbatim>\<open>class Aggregate { public readonly events: DomainEvent[] = [] }\<close>: the pending
  events, in the order they were pushed.\<close>

record Aggregate =
  events :: "obj DomainEvent list"

text \<open>
  \<^verbatim>\<open>class Formation extends Aggregate\<close>. The fields are declared \<^verbatim>\<open>string\<close>, \<^verbatim>\<open>number\<close> and
  \<^verbatim>\<open>string | null\<close>, but \<open>fromState\<close> fills them from an untyped state, so each holds
  whatever value the state had under that name.
\<close>

record Formation = Aggregate +
  f_id :: jsval
  f_nom :: jsval
  f_dureeEnHeures :: jsval
  f_date :: jsval
  f_nomFormateur :: jsval

text \<open>The private constructor; its argument object is passed field by field, an omitted
  optional field being \<^verbatim>\<open>undefined\<close>.\<close>

definition Formation_ctor :: "jsval \<Rightarrow> jsval \<Rightarrow> jsval \<Rightarrow> jsval \<Rightarrow> jsval \<Rightarrow> Formation" where
  "Formation_ctor a_id a_nom a_dureeEnHeures a_date a_nomFormateur =
     \<lparr>events = [], f_id = a_id, f_nom = a_nom, f_dureeEnHeures = a_dureeEnHeures,
      f_date = nullish a_date JNull, f_nomFormateur = nullish a_nomFormateur JNull\<rparr>"

definition Formation_planifierLe :: "string \<Rightarrow> string \<Rightarrow> string \<Rightarrow> Formation \<Rightarrow> Formation" where
  "Formation_planifierLe now d n this =
     (let this1 = this\<lparr>f_date := JStr d\<rparr>;
          this2 = this1\<lparr>f_nomFormateur := JStr n\<rparr>
      in this2\<lparr>events := events this2 @
           [FormationPlanifiee_creer now (f_id this2)
              [''date'' \<mapsto> f_date this2, ''nomFormateur'' \<mapsto> f_nomFormateur this2]]\<rparr>)"

definition Formation_creer :: "string \<Rightarrow> string \<Rightarrow> string \<Rightarrow> real \<Rightarrow> Formation" where
  "Formation_creer now i n d =
     (let formation = Formation_ctor (JStr i) (JStr n) (JNum d) JUndefined JUndefined
      in formation\<lparr>events := events formation @
           [FormationCreee_creer now (f_id formation)
              [''id'' \<mapsto> f_id formation, ''nom'' \<mapsto> f_nom formation,
               ''dureeEnHeures'' \<mapsto> f_dureeEnHeures formation]]\<rparr>)"

definition Formation_fromState :: "obj \<Rightarrow> Formation" where
  "Formation_fromState state =
     Formation_ctor (getProp state ''id'') (getProp state ''nom'')
       (getProp state ''dureeEnHeures'') (getProp state ''date'')
       (getProp state ''nomFormateur'')"

section \<open>The repository\<close>

text \<open>The comparator handed to \<open>sort\<close>:
  \<^verbatim>\<open>(prev, cur) => prev.createdAt < cur.createdAt ? -1 : 1\<close>.\<close>

definition byCreatedAt :: "'p DomainEvent \<Rightarrow> 'p DomainEvent \<Rightarrow> int" where
  "byCreatedAt prev cur = (if createdAt prev < createdAt cur then - 1 else 1)"

text \<open>
  \<open>getById\<close>, step by step: \<open>eventsForAggregate\<close> is the constant of that name in the
  source, \<open>sortedEvents\<close> the array after \<open>sort\<close>, \<open>getById_state\<close> the constant \<open>state\<close>.
  \<open>filter\<close> makes a new array, so the sort, which works in place, rearranges that array
  and not the one the store keeps.
\<close>

definition eventsForAggregate :: "'p DomainEvent list \<Rightarrow> string \<Rightarrow> 'p DomainEvent list" where
  "eventsForAggregate listed i = filter (\<lambda>e. aggregateId e = JStr i) listed"

definition sortedEvents :: "'p DomainEvent list \<Rightarrow> string \<Rightarrow> 'p DomainEvent list" where
  "sortedEvents listed i = Array_sort byCreatedAt (eventsForAggregate listed i)"

definition getById_state :: "obj DomainEvent list \<Rightarrow> string \<Rightarrow> obj" where
  "getById_state listed i =
     foldl (\<lambda>prev cur. spread prev cur) Map.empty (map changes (sortedEvents listed i))"

text \<open>Both methods of the repository return the store as they leave it, beside their
  result; \<open>persist\<close> returns the aggregate as it leaves it too.\<close>

definition FormationRepository_getById ::
  "string \<Rightarrow> obj InMemoryEventStore \<Rightarrow> string \<Rightarrow> obj InMemoryEventStore \<times> (error + Formation)" where
  "FormationRepository_getById now eventStore i =
     (case InMemoryEventStore_list now eventStore of
        Inl err \<Rightarrow> (eventStore, Inl err)
      | Inr listed \<Rightarrow> (eventStore, Inr (Formation_fromState (getById_state listed i))))"

text \<open>\<^verbatim>\<open>es.forEach(e => this.eventStore.add(e))\<close>. Every state the store can be in is
  \<open>forEach_add InMemoryEventStore_new evs\<close> for the events \<open>evs\<close> added since it was
  made: its array is private, and \<open>add\<close> is the only method that writes it.\<close>

definition forEach_add :: "'p InMemoryEventStore \<Rightarrow> 'p DomainEvent list \<Rightarrow> 'p InMemoryEventStore" where
  "forEach_add eventStore es = foldl (\<lambda>st e. InMemoryEventStore_add e st) eventStore es"

definition FormationRepository_persist ::
  "obj InMemoryEventStore \<Rightarrow> Formation \<Rightarrow> obj InMemoryEventStore \<times> Formation" where
  "FormationRepository_persist eventStore f = (forEach_add eventStore (events f), f)"

section \<open>The store among the objects of the program\<close>

text \<open>
  Where it matters who can reach which object, the store is read once more with
  every object at an address. The running program has four kinds of objects here, and an
  object of one kind is never one of another: the payloads (plain objects built by the
  callers), the records (the object literals \<open>toState\<close> returns), the event objects (the
  instances the constructors make) and the arrays. \<open>heap\<close> keeps each kind in its own
  table; an address is an index into the table of its kind, and a new object goes to the
  end of its table, at an address no object has yet. An address held by a running program
  always names an object, so the tables are read with \<open>!\<close>; \<open>heap_store_ok\<close> says so of a
  store. What an object says is computed by the definitions above at \<open>'p = ref\<close>: a field
  \<open>changes\<close> holds the address of a payload, and is copied as an address.
\<close>

type_synonym ref = nat

record heap =
  payloads :: "obj list"
  records :: "ref IEvent list"
  event_objects :: "ref DomainEvent list"
  arrays :: "ref list list"

text \<open>\<^verbatim>\<open>new InMemoryEventStore()\<close>: the field initialiser makes the empty array the store
  keeps; the store is known by the address of that array, which the \<^verbatim>\<open>readonly\<close> field
  never lets go.\<close>

definition heap_newStore :: "heap \<Rightarrow> heap \<times> ref" where
  "heap_newStore h = (h\<lparr>arrays := arrays h @ [[]]\<rparr>, length (arrays h))"

text \<open>\<open>event.toState()\<close> on the event object at \<open>e\<close>: a new record.\<close>

definition heap_toState :: "ref \<Rightarrow> heap \<Rightarrow> heap \<times> ref" where
  "heap_toState e h =
     (h\<lparr>records := records h @ [DomainEvent_toState (event_objects h ! e)]\<rparr>,
      length (records h))"

text \<open>\<open>add\<close>: \<^verbatim>\<open>this.events.push(event.toState())\<close>, the push being a write to the store's
  own array.\<close>

definition heap_add :: "ref \<Rightarrow> ref \<Rightarrow> heap \<Rightarrow> heap" where
  "heap_add st e h =
     (case heap_toState e h of
        (h1, r) \<Rightarrow> h1\<lparr>arrays := (arrays h1)[st := arrays h1 ! st @ [r]]\<rparr>)"

text \<open>\<open>DomainEvent.fromState(e)\<close> on the record at \<open>r\<close>: a new event object, or the throw.\<close>

definition heap_fromState :: "string \<Rightarrow> ref \<Rightarrow> heap \<Rightarrow> heap \<times> (error + ref)" where
  "heap_fromState now r h =
     (case DomainEvent_fromState now (records h ! r) of
        Inl err \<Rightarrow> (h, Inl err)
      | Inr ev \<Rightarrow> (h\<lparr>event_objects := event_objects h @ [ev]\<rparr>, Inr (length (event_objects h))))"

text \<open>\<open>list\<close>: \<^verbatim>\<open>this.events.map(e => DomainEvent.fromState(e))\<close>. \<open>map\<close> reads the store's
  array and returns a new array of what the calls returned.\<close>

fun heap_map_fromState :: "string \<Rightarrow> ref list \<Rightarrow> heap \<Rightarrow> heap \<times> (error + ref list)" where
  "heap_map_fromState now [] h = (h, Inr [])"
| "heap_map_fromState now (r # rs) h =
     (case heap_fromState now r h of
        (h1, Inl err) \<Rightarrow> (h1, Inl err)
      | (h1, Inr e) \<Rightarrow>
          (case heap_map_fromState now rs h1 of
             (h2, Inl err) \<Rightarrow> (h2, Inl err)
           | (h2, Inr es) \<Rightarrow> (h2, Inr (e # es))))"

definition heap_list :: "string \<Rightarrow> ref \<Rightarrow> heap \<Rightarrow> heap \<times> (error + ref)" where
  "heap_list now st h =
     (case heap_map_fromState now (arrays h ! st) h of
        (h1, Inl err) \<Rightarrow> (h1, Inl err)
      | (h1, Inr es) \<Rightarrow> (h1\<lparr>arrays := arrays h1 @ [es]\<rparr>, Inr (length (arrays h1))))"

text \<open>What the store holds: its records in order (\<open>store_records\<close>), and the same with
  each payload read through its address (\<open>store_contents\<close>).\<close>

definition store_records :: "heap \<Rightarrow> ref \<Rightarrow> ref IEvent list" where
  "store_records h st = map (\<lambda>r. records h ! r) (arrays h ! st)"

definition store_contents :: "heap \<Rightarrow> ref \<Rightarrow> obj IEvent list" where
  "store_contents h st =
     map (\<lambda>r. \<lparr>s_nom = s_nom r, s_changes = payloads h ! s_changes r,
               s_createdAt = s_createdAt r, s_aggregateId = s_aggregateId r\<rparr>)
       (store_records h st)"

definition heap_store_ok :: "heap \<Rightarrow> ref \<Rightarrow> bool" where
  "heap_store_ok h st \<longleftrightarrow>
     st < length (arrays h) \<and>
     (\<forall>r\<in>set (arrays h ! st).
        r < length (records h) \<and> s_changes (records h ! r) < length (payloads h))"

text \<open>
  What a caller can do with what \<open>list\<close> returned. \<open>write_array\<close> replaces the content
  of the array at \<open>a\<close> (\<^verbatim>\<open>l[i] = x\<close>, \<^verbatim>\<open>l.push(x)\<close>, \<^verbatim>\<open>l.length = 0\<close>, ...), \<open>write_event\<close>
  the fields of the event object at \<open>e\<close> (\<^verbatim>\<open>l[i].aggregateId = x\<close>, ...), \<open>write_payload\<close>
  one property of the payload at \<open>p\<close> (\<^verbatim>\<open>l[i].changes.k = v\<close>). \<open>caller_writes a\<close> is any
  sequence of writes of the first two kinds, the array written being the one at \<open>a\<close>.
\<close>

definition write_array :: "ref \<Rightarrow> ref list \<Rightarrow> heap \<Rightarrow> heap" where
  "write_array a xs h = h\<lparr>arrays := (arrays h)[a := xs]\<rparr>"

definition write_event :: "ref \<Rightarrow> ref DomainEvent \<Rightarrow> heap \<Rightarrow> heap" where
  "write_event e ev h = h\<lparr>event_objects := (event_objects h)[e := ev]\<rparr>"

definition write_payload :: "ref \<Rightarrow> string \<Rightarrow> jsval \<Rightarrow> heap \<Rightarrow> heap" where
  "write_payload p k v h = h\<lparr>payloads := (payloads h)[p := (payloads h ! p)(k \<mapsto> v)]\<rparr>"

datatype caller_write = ArrayWrite "ref list" | EventWrite ref "ref DomainEvent"

fun caller_writes :: "ref \<Rightarrow> caller_write list \<Rightarrow> heap \<Rightarrow> heap" where
  "caller_writes a [] h = h"
| "caller_writes a (ArrayWrite xs # ws) h = caller_writes a ws (write_array a xs h)"
| "caller_writes a (EventWrite e ev # ws) h = caller_writes a ws (write_event e ev h)"

section \<open>What the merged state is, in the words of the specification\<close>

text \<open>Last write wins per field: the value of a key is the one given by the last
  payload of the sequence that has the key, and the key is absent when none has it.\<close>

fun last_write :: "obj list \<Rightarrow> string \<Rightarrow> jsval option" where
  "last_write [] k = None"
| "last_write (c # cs) k = (case last_write cs k of Some v \<Rightarrow> Some v | None \<Rightarrow> c k)"

section \<open>Worked inputs\<close>

text \<open>The three events of the fold-ordering example: \<open>E1\<close>, \<open>E2\<close>, \<open>E3\<close> of one aggregate,
  stamped at milliseconds 1, 3 and 2, with payloads \<^verbatim>\<open>{a:1}\<close>, \<^verbatim>\<open>{a:2,b:1}\<close>, \<^verbatim>\<open>{b:2}\<close>.\<close>

definition c1_E1 :: "obj DomainEvent" where
  "c1_E1 = FormationCreee (JStr ''X'') [''a'' \<mapsto> JNum 1] ''2021-01-01T00:00:00.001Z''"

definition c1_E2 :: "obj DomainEvent" where
  "c1_E2 = FormationPlanifiee (JStr ''X'') [''a'' \<mapsto> JNum 2, ''b'' \<mapsto> JNum 1] ''2021-01-01T00:00:00.003Z''"

definition c1_E3 :: "obj DomainEvent" where
  "c1_E3 = FormationPlanifiee (JStr ''X'') [''b'' \<mapsto> JNum 2] ''2021-01-01T00:00:00.002Z''"

text \<open>Records as a store could hold them: two with tags outside the closed set, one with a
  known tag.\<close>

definition c3_nope :: "obj IEvent" where
  "c3_nope = \<lparr>s_nom = ''NOPE'', s_changes = Map.empty,
              s_createdAt = ''2021-01-01T00:00:00.001Z'', s_aggregateId = JStr ''X''\<rparr>"

definition c3_other :: "obj IEvent" where
  "c3_other = \<lparr>s_nom = ''FORMATION_ANNULEE'', s_changes = Map.empty,
              s_createdAt = ''2021-01-01T00:00:00.001Z'', s_aggregateId = JStr ''X''\<rparr>"

definition c3_known :: "obj IEvent" where
  "c3_known = \<lparr>s_nom = ''FORMATION_PLANIFIEE'', s_changes = [''date'' \<mapsto> JStr ''2021-05-01''],
              s_createdAt = ''2021-01-01T00:00:00.001Z'', s_aggregateId = JStr ''X''\<rparr>"

text \<open>
  Two handles on one aggregate. \<open>X\<close> is created and persisted; \<open>c6_loaded\<close> is what
  \<open>getById\<close> then returns, held twice. The first holder schedules at millisecond 5
  (\<open>c6_f\<close>), the second at millisecond 9 (\<open>c6_g\<close>); the second persists first.
  \<^verbatim>\<open>
  repo.persist(Formation.creer('X', 'Name', 10))
  const f = repo.getById('X'), g = repo.getById('X')
  f.planifierLe('2021-05-01', 'Alice')     // stamped ...005Z
  g.planifierLe('2021-06-01', 'Bob')       // stamped ...009Z
  repo.persist(g); repo.persist(f)
  \<close>
\<close>

definition c6_created :: Formation where
  "c6_created = Formation_creer ''2021-01-01T00:00:00.001Z'' ''X'' ''Name'' 10"

definition c6_store0 :: "obj InMemoryEventStore" where
  "c6_store0 = fst (FormationRepository_persist InMemoryEventStore_new c6_created)"

definition c6_loaded :: Formation where
  "c6_loaded = \<lparr>events = [], f_id = JStr ''X'', f_nom = JStr ''Name'',
                 f_dureeEnHeures = JNum 10, f_date = JNull, f_nomFormateur = JNull\<rparr>"

definition c6_f :: Formation where
  "c6_f = Formation_planifierLe ''2021-01-01T00:00:00.005Z'' ''2021-05-01'' ''Alice'' c6_loaded"

definition c6_g :: Formation where
  "c6_g = Formation_planifierLe ''2021-01-01T00:00:00.009Z'' ''2021-06-01'' ''Bob'' c6_loaded"

definition c6_store1 :: "obj InMemoryEventStore" where
  "c6_store1 = fst (FormationRepository_persist c6_store0 c6_g)"

definition c6_store2 :: "obj InMemoryEventStore" where
  "c6_store2 = fst (FormationRepository_persist c6_store1 c6_f)"

text \<open>
  A heap with one payload, one event object holding its address, and a store still empty
  (\<open>c7_heap0\<close>); the event is added (\<open>c7_heap1\<close>), then the store is listed (\<open>c7_heap2\<close>).
  \<^verbatim>\<open>
  const e = ...                             // e.changes is the object {nom: 'Name'}
  store.add(e)
  const l = store.list()
  l[0].changes.nom = 'Changed'
  \<close>
\<close>

definition c7_event :: "ref DomainEvent" where
  "c7_event = FormationCreee (JStr ''X'') 0 ''2021-01-01T00:00:00.001Z''"

definition c7_heap0 :: heap where
  "c7_heap0 = \<lparr>payloads = [[''nom'' \<mapsto> JStr ''Name'']], records = [],
               event_objects = [c7_event],
               arrays = [[]]\<rparr>"

definition c7_heap1 :: heap where
  "c7_heap1 = heap_add 0 0 c7_heap0"

definition c7_heap2 :: heap where
  "c7_heap2 = fst (heap_list ''2021-01-01T00:00:00.002Z'' 0 c7_heap1)"

text \<open>An event of another aggregate, \<open>Y\<close>.\<close>

definition c9_other :: "obj DomainEvent" where
  "c9_other = FormationCreee (JStr ''Y'')
                [''id'' \<mapsto> JStr ''Y'', ''nom'' \<mapsto> JStr ''Other'', ''dureeEnHeures'' \<mapsto> JNum 7]
                ''2021-01-01T00:00:00.001Z''"

section \<open>Events and the store\<close>

lemma fromState_toState: "DomainEvent_fromState now (DomainEvent_toState e) = Inr e"
  by (cases e) (simp_all add: DomainEvent_fromState_def DomainEvent_toState_def DomainEvent_ctor_def)

lemma map_fromState_toState: "map_fromState now (map DomainEvent_toState es) = Inr es"
  by (induction es) (simp_all add: fromState_toState)

lemma forEach_add_eq:
  "forEach_add st es = st\<lparr>store_events := store_events st @ map DomainEvent_toState es\<rparr>"
  unfolding forEach_add_def
  by (induction es arbitrary: st) (simp_all add: InMemoryEventStore_add_def)

lemma store_events_forEach_add:
  "store_events (forEach_add st es) = store_events st @ map DomainEvent_toState es"
  by (simp add: forEach_add_eq)

lemma forEach_add_append: "forEach_add (forEach_add st es) fs = forEach_add st (es @ fs)"
  by (simp add: forEach_add_def)

lemma list_forEach_add_new:
  "InMemoryEventStore_list now (forEach_add InMemoryEventStore_new evs) = Inr evs"
  by (simp add: InMemoryEventStore_list_def store_events_forEach_add InMemoryEventStore_new_def
      map_fromState_toState)

lemma getById_stored:
  "FormationRepository_getById now (forEach_add InMemoryEventStore_new evs) i =
     (forEach_add InMemoryEventStore_new evs, Inr (Formation_fromState (getById_state evs i)))"
  by (simp add: FormationRepository_getById_def list_forEach_add_new)

lemma persist_stored:
  "fst (FormationRepository_persist (forEach_add InMemoryEventStore_new evs) f) =
     forEach_add InMemoryEventStore_new (evs @ events f)"
  by (simp add: FormationRepository_persist_def forEach_add_append)

lemma persist_new:
  "fst (FormationRepository_persist InMemoryEventStore_new f) =
     forEach_add InMemoryEventStore_new (events f)"
  by (simp add: FormationRepository_persist_def)

section \<open>The sort\<close>

text \<open>With a comparator that is negative exactly when the key of its first argument is
  smaller, \<open>Array_sort\<close> sorts by the key and is stable; it is then \<open>sort_key\<close>.\<close>

lemma mset_sort_insert: "mset (sort_insert c p xs) = add_mset p (mset xs)"
  by (induction xs) simp_all

lemma set_sort_insert: "set (sort_insert c p xs) = insert p (set xs)"
  by (induction xs) auto

lemma sorted_sort_insert:
  fixes f :: "'a \<Rightarrow> 'k::linorder"
  assumes "\<And>a b. c a b < 0 \<longleftrightarrow> f a < f b" and "sorted (map f xs)"
  shows "sorted (map f (sort_insert c p xs))"
  using assms(2)
proof (induction xs)
  case Nil
  then show ?case by simp
next
  case (Cons x xs)
  then show ?case
    using assms(1) by (auto simp: set_sort_insert not_less less_imp_le)
qed

lemma filter_sort_insert:
  fixes f :: "'a \<Rightarrow> 'k::linorder"
  assumes "\<And>a b. c a b < 0 \<longleftrightarrow> f a < f b" and "sorted (map f xs)"
  shows "filter (\<lambda>x. f x = k) (sort_insert c p xs) = filter (\<lambda>x. f x = k) (xs @ [p])"
  using assms(2)
proof (induction xs)
  case Nil
  then show ?case by simp
next
  case (Cons x xs)
  show ?case
  proof (cases "c p x < 0")
    case True
    then have lt: "f p < f x" using assms(1) by simp
    have "\<forall>y\<in>set (x # xs). f p < f y"
      using Cons.prems lt by auto
    then have "filter (\<lambda>y. f y = f p) (x # xs) = []"
      by (auto simp: filter_empty_conv)
    then show ?thesis using True by (cases "k = f p") auto
  next
    case False
    then show ?thesis using Cons by simp
  qed
qed

lemma foldl_sort_insert:
  fixes f :: "'a \<Rightarrow> 'k::linorder"
  assumes "\<And>a b. c a b < 0 \<longleftrightarrow> f a < f b" and "sorted (map f acc)"
  shows "sorted (map f (foldl (\<lambda>s p. sort_insert c p s) acc xs)) \<and>
         mset (foldl (\<lambda>s p. sort_insert c p s) acc xs) = mset acc + mset xs \<and>
         (\<forall>k. filter (\<lambda>x. f x = k) (foldl (\<lambda>s p. sort_insert c p s) acc xs) =
              filter (\<lambda>x. f x = k) (acc @ xs))"
  using assms(2)
proof (induction xs arbitrary: acc)
  case Nil
  then show ?case by simp
next
  case (Cons x xs)
  have s: "sorted (map f (sort_insert c x acc))"
    using assms(1) Cons.prems by (rule sorted_sort_insert)
  show ?case
    using Cons.IH [OF s] filter_sort_insert [of c f acc _ x, OF assms(1) Cons.prems]
    by (simp add: mset_sort_insert)
qed

lemma Array_sort_props:
  fixes f :: "'a \<Rightarrow> 'k::linorder"
  assumes "\<And>a b. c a b < 0 \<longleftrightarrow> f a < f b"
  shows "sorted (map f (Array_sort c xs))"
    and "mset (Array_sort c xs) = mset xs"
    and "filter (\<lambda>x. f x = k) (Array_sort c xs) = filter (\<lambda>x. f x = k) xs"
  using foldl_sort_insert [of c f "[]" xs, OF assms] by (simp_all add: Array_sort_def)

lemma Array_sort_eq_sort_key:
  fixes f :: "'a \<Rightarrow> 'k::linorder"
  assumes "\<And>a b. c a b < 0 \<longleftrightarrow> f a < f b"
  shows "Array_sort c xs = sort_key f xs"
proof (rule sym, rule properties_for_sort_key)
  show "mset (Array_sort c xs) = mset xs" by (rule Array_sort_props(2) [OF assms])
  show "sorted (map f (Array_sort c xs))" by (rule Array_sort_props(1) [OF assms])
  fix e
  have "filter (\<lambda>x. f x = f e) (Array_sort c xs) = filter (\<lambda>x. f x = f e) xs"
    by (rule Array_sort_props(3) [OF assms])
  then show "filter (\<lambda>x. f e = f x) (Array_sort c xs) = filter (\<lambda>x. f e = f x) xs"
    by (simp add: eq_commute)
qed

lemma sort_insert_last:
  assumes "\<forall>x\<in>set xs. \<not> c p x < 0"
  shows "sort_insert c p xs = xs @ [p]"
  using assms by (induction xs) simp_all

lemma Array_sort_snoc: "Array_sort c (xs @ [p]) = sort_insert c p (Array_sort c xs)"
  by (simp add: Array_sort_def)

lemma byCreatedAt_lt: "(byCreatedAt a b < 0) = (createdAt a < createdAt b)"
  by (simp add: byCreatedAt_def)

lemma sortedEvents_eq_sort_key:
  "sortedEvents evs i = sort_key createdAt (filter (\<lambda>e. aggregateId e = JStr i) evs)"
  unfolding sortedEvents_def eventsForAggregate_def
  by (rule Array_sort_eq_sort_key) (rule byCreatedAt_lt)

lemma set_sortedEvents:
  "set (sortedEvents evs i) = {e \<in> set evs. aggregateId e = JStr i}"
proof -
  have "mset (sortedEvents evs i) = mset (filter (\<lambda>e. aggregateId e = JStr i) evs)"
    unfolding sortedEvents_def eventsForAggregate_def
    by (rule Array_sort_props(2) [OF byCreatedAt_lt])
  then have "set (sortedEvents evs i) = set (filter (\<lambda>e. aggregateId e = JStr i) evs)"
    by (rule mset_eq_setD)
  then show ?thesis by simp
qed

lemma sortedEvents_none:
  assumes "\<forall>e\<in>set evs. aggregateId e \<noteq> JStr i"
  shows "sortedEvents evs i = []"
proof -
  have "filter (\<lambda>e. aggregateId e = JStr i) evs = []"
    using assms by (simp add: filter_empty_conv)
  then show ?thesis
    by (simp add: sortedEvents_def eventsForAggregate_def Array_sort_def)
qed

lemma sortedEvents_snoc:
  assumes "aggregateId new = JStr i"
    and "\<forall>e\<in>set evs. aggregateId e = JStr i \<longrightarrow> createdAt e \<le> createdAt new"
  shows "sortedEvents (evs @ [new]) i = sortedEvents evs i @ [new]"
proof -
  have "\<forall>x\<in>set (sortedEvents evs i). \<not> byCreatedAt new x < 0"
    using assms(2) by (auto simp: set_sortedEvents byCreatedAt_lt)
  then have "sort_insert byCreatedAt new (sortedEvents evs i) = sortedEvents evs i @ [new]"
    by (rule sort_insert_last)
  then show ?thesis
    using assms(1) by (simp add: sortedEvents_def eventsForAggregate_def Array_sort_snoc)
qed

section \<open>The fold and the rehydration\<close>

lemma foldl_spread_last_write:
  "foldl (\<lambda>prev cur. spread prev cur) m cs k =
     (case last_write cs k of Some v \<Rightarrow> Some v | None \<Rightarrow> m k)"
proof (induction cs arbitrary: m)
  case Nil
  then show ?case by simp
next
  case (Cons c cs)
  then show ?case by (auto simp: spread_def map_add_def split: option.splits)
qed

lemma getById_state_snoc:
  assumes "aggregateId new = JStr i"
    and "\<forall>e\<in>set evs. aggregateId e = JStr i \<longrightarrow> createdAt e \<le> createdAt new"
  shows "getById_state (evs @ [new]) i = spread (getById_state evs i) (changes new)"
  by (simp add: getById_state_def sortedEvents_snoc [OF assms])

lemma fromState_empty:
  "Formation_fromState Map.empty =
     \<lparr>events = [], f_id = JUndefined, f_nom = JUndefined, f_dureeEnHeures = JUndefined,
      f_date = JNull, f_nomFormateur = JNull\<rparr>"
  by (simp add: Formation_fromState_def Formation_ctor_def getProp_def nullish_def)

lemma fromState_scheduled:
  "Formation_fromState (spread state [''date'' \<mapsto> JStr d, ''nomFormateur'' \<mapsto> JStr n]) =
     (Formation_fromState state)\<lparr>f_date := JStr d, f_nomFormateur := JStr n\<rparr>"
  by (simp add: Formation_fromState_def Formation_ctor_def getProp_def nullish_def spread_def)

lemma getById_Inr_loaded:
  assumes "snd (FormationRepository_getById now (forEach_add InMemoryEventStore_new evs) i) = Inr f"
  shows "f = Formation_fromState (getById_state evs i)" and "events f = []"
proof -
  show "f = Formation_fromState (getById_state evs i)"
    using assms by (simp add: getById_stored)
  then show "events f = []"
    by (simp add: Formation_fromState_def Formation_ctor_def)
qed

lemma Formation_creer_eq:
  "Formation_creer now i n d =
     \<lparr>events = [FormationCreee (JStr i)
                  [''id'' \<mapsto> JStr i, ''nom'' \<mapsto> JStr n, ''dureeEnHeures'' \<mapsto> JNum d] now],
      f_id = JStr i, f_nom = JStr n, f_dureeEnHeures = JNum d, f_date = JNull,
      f_nomFormateur = JNull\<rparr>"
  by (simp add: Formation_creer_def Formation_ctor_def FormationCreee_creer_def
      DomainEvent_ctor_def nullish_def Let_def)

lemma planifierLe_eq:
  "Formation_planifierLe now d n f =
     f\<lparr>f_date := JStr d, f_nomFormateur := JStr n,
       events := events f @
         [FormationPlanifiee (f_id f) [''date'' \<mapsto> JStr d, ''nomFormateur'' \<mapsto> JStr n] now]\<rparr>"
  by (simp add: Formation_planifierLe_def FormationPlanifiee_creer_def DomainEvent_ctor_def Let_def)

section \<open>The store among the objects: allocation and frame\<close>

lemma heap_map_fromState_ok:
  "map_fromState now (map (\<lambda>r. records h ! r) rs) = Inr evs \<Longrightarrow>
   heap_map_fromState now rs h =
     (h\<lparr>event_objects := event_objects h @ evs\<rparr>,
      Inr [length (event_objects h) ..< length (event_objects h) + length evs])"
proof (induction rs arbitrary: h evs)
  case Nil
  then show ?case by simp
next
  case (Cons r rs)
  from Cons.prems obtain ev evs' where
    ev: "DomainEvent_fromState now (records h ! r) = Inr ev"
    and rest: "map_fromState now (map (\<lambda>r. records h ! r) rs) = Inr evs'"
    and evs: "evs = ev # evs'"
    by (auto split: sum.splits)
  let ?h1 = "h\<lparr>event_objects := event_objects h @ [ev]\<rparr>"
  have "map_fromState now (map (\<lambda>r. records ?h1 ! r) rs) = Inr evs'"
    using rest by simp
  from Cons.IH [OF this]
  have "heap_map_fromState now rs ?h1 =
     (?h1\<lparr>event_objects := event_objects ?h1 @ evs'\<rparr>,
      Inr [length (event_objects ?h1) ..< length (event_objects ?h1) + length evs'])" .
  then show ?case
    using ev evs by (simp add: heap_fromState_def upt_rec)
qed

lemma heap_list_ok:
  assumes "map_fromState now (store_records h st) = Inr evs"
  shows "heap_list now st h =
     (h\<lparr>event_objects := event_objects h @ evs,
        arrays := arrays h @ [[length (event_objects h) ..< length (event_objects h) + length evs]]\<rparr>,
      Inr (length (arrays h)))"
  using heap_map_fromState_ok [of now h "arrays h ! st" evs] assms
  by (simp add: heap_list_def store_records_def)

lemma store_records_caller_writes:
  assumes "a \<noteq> st"
  shows "store_records (caller_writes a ws h) st = store_records h st
       \<and> payloads (caller_writes a ws h) = payloads h"
proof (induction ws arbitrary: h)
  case Nil
  then show ?case by simp
next
  case (Cons w ws)
  show ?case
  proof (cases w)
    case (ArrayWrite xs)
    have "store_records (write_array a xs h) st = store_records h st"
      using assms by (simp add: store_records_def write_array_def)
    moreover have "payloads (write_array a xs h) = payloads h"
      by (simp add: write_array_def)
    ultimately show ?thesis using Cons [of "write_array a xs h"] ArrayWrite by simp
  next
    case (EventWrite e ev)
    have "store_records (write_event e ev h) st = store_records h st"
      by (simp add: store_records_def write_event_def)
    moreover have "payloads (write_event e ev h) = payloads h"
      by (simp add: write_event_def)
    ultimately show ?thesis using Cons [of "write_event e ev h"] EventWrite by simp
  qed
qed

lemma store_contents_cong:
  "store_records h' st = store_records h st \<Longrightarrow> payloads h' = payloads h \<Longrightarrow>
   store_contents h' st = store_contents h st"
  by (simp add: store_contents_def)

lemma heap_newStore_ok:
  "heap_store_ok (fst (heap_newStore h)) (snd (heap_newStore h))
   \<and> store_records (fst (heap_newStore h)) (snd (heap_newStore h)) = []"
  by (simp add: heap_newStore_def heap_store_ok_def store_records_def)

lemma heap_add_ok:
  assumes "heap_store_ok h st" and "e < length (event_objects h)"
    and "changes (event_objects h ! e) < length (payloads h)"
  shows "heap_store_ok (heap_add st e h) st"
    and "store_records (heap_add st e h) st =
           store_events (InMemoryEventStore_add (event_objects h ! e)
                           \<lparr>store_events = store_records h st\<rparr>)"
proof -
  have st: "st < length (arrays h)"
    and rs: "\<forall>r\<in>set (arrays h ! st).
        r < length (records h) \<and> s_changes (records h ! r) < length (payloads h)"
    using assms(1) by (simp_all add: heap_store_ok_def)
  show "heap_store_ok (heap_add st e h) st"
    using st rs assms(3)
    by (auto simp: heap_store_ok_def heap_add_def heap_toState_def nth_append
        DomainEvent_toState_def)
  have "map (\<lambda>r. (records h @ [DomainEvent_toState (event_objects h ! e)]) ! r) (arrays h ! st)
        = map (\<lambda>r. records h ! r) (arrays h ! st)"
    using rs by (simp add: nth_append)
  then show "store_records (heap_add st e h) st =
           store_events (InMemoryEventStore_add (event_objects h ! e)
                           \<lparr>store_events = store_records h st\<rparr>)"
    using st
    by (simp add: store_records_def heap_add_def heap_toState_def InMemoryEventStore_add_def)
qed

lemma heap_add_represents:
  assumes "heap_store_ok h st" and "e < length (event_objects h)"
    and "changes (event_objects h ! e) < length (payloads h)"
    and "store_records h st = store_events (forEach_add InMemoryEventStore_new evs)"
  shows "store_records (heap_add st e h) st =
           store_events (forEach_add InMemoryEventStore_new (evs @ [event_objects h ! e]))"
  using heap_add_ok(2) [OF assms(1-3)] assms(4)
  by (simp add: store_events_forEach_add InMemoryEventStore_add_def)

lemma map_nth_appended:
  "map (\<lambda>e. (xs @ ys) ! e) [length xs ..< length xs + length ys] = ys"
proof (rule nth_equalityI)
  show "length (map (\<lambda>e. (xs @ ys) ! e) [length xs ..< length xs + length ys]) = length ys"
    by simp
next
  fix i
  assume "i < length (map (\<lambda>e. (xs @ ys) ! e) [length xs ..< length xs + length ys])"
  then have i: "i < length ys" by simp
  then have "[length xs ..< length xs + length ys] ! i = length xs + i"
    by (rule nth_upt [OF add_strict_left_mono])
  then show "map (\<lambda>e. (xs @ ys) ! e) [length xs ..< length xs + length ys] ! i = ys ! i"
    using i by (simp only: nth_map length_upt add_diff_cancel_left' nth_append_length_plus)
qed

section \<open>The worked inputs, evaluated\<close>

lemma c6_store0_eq: "c6_store0 = forEach_add InMemoryEventStore_new (events c6_created)"
  by (simp add: c6_store0_def persist_new)

lemma c6_created_events:
  "events c6_created =
     [FormationCreee (JStr ''X'')
        [''id'' \<mapsto> JStr ''X'', ''nom'' \<mapsto> JStr ''Name'', ''dureeEnHeures'' \<mapsto> JNum 10]
        ''2021-01-01T00:00:00.001Z'']"
  by (simp add: c6_created_def Formation_creer_eq)

lemma c6_load: "snd (FormationRepository_getById t c6_store0 ''X'') = Inr c6_loaded"
  unfolding c6_store0_eq getById_stored
  by (simp add: c6_created_events getById_state_def sortedEvents_def eventsForAggregate_def
      Array_sort_def spread_def Formation_fromState_def Formation_ctor_def getProp_def
      nullish_def c6_loaded_def)

lemma c6_store2_eq:
  "c6_store2 = forEach_add InMemoryEventStore_new
     [FormationCreee (JStr ''X'')
        [''id'' \<mapsto> JStr ''X'', ''nom'' \<mapsto> JStr ''Name'', ''dureeEnHeures'' \<mapsto> JNum 10]
        ''2021-01-01T00:00:00.001Z'',
      FormationPlanifiee (JStr ''X'')
        [''date'' \<mapsto> JStr ''2021-06-01'', ''nomFormateur'' \<mapsto> JStr ''Bob'']
        ''2021-01-01T00:00:00.009Z'',
      FormationPlanifiee (JStr ''X'')
        [''date'' \<mapsto> JStr ''2021-05-01'', ''nomFormateur'' \<mapsto> JStr ''Alice'']
        ''2021-01-01T00:00:00.005Z'']"
  by (simp add: c6_store2_def c6_store1_def c6_store0_eq c6_created_events persist_stored
      c6_f_def c6_g_def planifierLe_eq c6_loaded_def)

lemma c7_heap1_eq:
  "c7_heap1 = \<lparr>payloads = [[''nom'' \<mapsto> JStr ''Name'']],
               records = [DomainEvent_toState c7_event],
               event_objects = [c7_event], arrays = [[0]]\<rparr>"
  by (simp add: c7_heap1_def c7_heap0_def heap_add_def heap_toState_def)

lemma c7_list:
  "heap_list ''2021-01-01T00:00:00.002Z'' 0 c7_heap1 =
     (\<lparr>payloads = [[''nom'' \<mapsto> JStr ''Name'']],
       records = [DomainEvent_toState c7_event],
       event_objects = [c7_event, c7_event], arrays = [[0], [1]]\<rparr>, Inr 1)"
  by (simp add: c7_heap1_eq heap_list_def heap_fromState_def fromState_toState)

lemma c7_heap2_eq:
  "c7_heap2 = \<lparr>payloads = [[''nom'' \<mapsto> JStr ''Name'']],
       records = [DomainEvent_toState c7_event],
       event_objects = [c7_event, c7_event], arrays = [[0], [1]]\<rparr>"
  by (simp add: c7_heap2_def c7_list)

section \<open>The claims\<close>

subsection \<open>C1: getById replays the aggregate's events in time order\<close>

text \<open>
  C1. For every store (the events \<open>evs\<close> added to it, in that order) and every \<open>i\<close>,
  \<open>getById\<close> rehydrates from \<open>getById_state evs i\<close>, where: the events replayed are exactly
  those of \<open>evs\<close> whose \<open>aggregateId\<close> is \<open>i\<close>, each as often as it occurs; they are in
  ascending order of \<open>createdAt\<close>; events with the same \<open>createdAt\<close> stand in the order they
  have in the store; and the state gives each key the value of the last replayed payload
  that has it.
\<close>

theorem C1_getById_replays_in_time_order:
  fixes evs :: "obj DomainEvent list"
  shows "FormationRepository_getById now (forEach_add InMemoryEventStore_new evs) i =
       (forEach_add InMemoryEventStore_new evs, Inr (Formation_fromState (getById_state evs i)))
   \<and> mset (sortedEvents evs i) = filter_mset (\<lambda>e. aggregateId e = JStr i) (mset evs)
   \<and> sorted (map createdAt (sortedEvents evs i))
   \<and> (\<forall>t. filter (\<lambda>e. createdAt e = t) (sortedEvents evs i) =
            filter (\<lambda>e. createdAt e = t) (filter (\<lambda>e. aggregateId e = JStr i) evs))
   \<and> (\<forall>k. getById_state evs i k = last_write (map changes (sortedEvents evs i)) k)"
proof -
  have a: "FormationRepository_getById now (forEach_add InMemoryEventStore_new evs) i =
       (forEach_add InMemoryEventStore_new evs, Inr (Formation_fromState (getById_state evs i)))"
    by (rule getById_stored)
  have b: "mset (sortedEvents evs i) = filter_mset (\<lambda>e. aggregateId e = JStr i) (mset evs)"
    unfolding sortedEvents_def eventsForAggregate_def
    by (simp add: Array_sort_props(2) [of byCreatedAt createdAt, OF byCreatedAt_lt])
  have c: "sorted (map createdAt (sortedEvents evs i))"
    unfolding sortedEvents_def
    by (rule Array_sort_props(1) [OF byCreatedAt_lt])
  have d: "filter (\<lambda>e. createdAt e = t) (sortedEvents evs i) =
            filter (\<lambda>e. createdAt e = t) (filter (\<lambda>e. aggregateId e = JStr i) evs)" for t
    unfolding sortedEvents_def eventsForAggregate_def
    by (rule Array_sort_props(3) [OF byCreatedAt_lt])
  have e: "getById_state evs i k = last_write (map changes (sortedEvents evs i)) k" for k
    unfolding getById_state_def
    by (simp add: foldl_spread_last_write split: option.splits)
  from a b c d e show ?thesis by blast
qed

text \<open>The example of the specification: \<open>E1\<close>, \<open>E2\<close>, \<open>E3\<close> appended in that order are replayed
  as \<open>E1\<close>, \<open>E3\<close>, \<open>E2\<close> and merge to \<^verbatim>\<open>{a:2, b:1}\<close>.\<close>

theorem C1_witness:
  "sortedEvents [c1_E1, c1_E2, c1_E3] ''X'' = [c1_E1, c1_E3, c1_E2]
   \<and> getById_state [c1_E1, c1_E2, c1_E3] ''X'' = [''a'' \<mapsto> JNum 2, ''b'' \<mapsto> JNum 1]"
proof -
  have s: "sortedEvents [c1_E1, c1_E2, c1_E3] ''X'' = [c1_E1, c1_E3, c1_E2]"
    by (simp add: sortedEvents_def eventsForAggregate_def Array_sort_def byCreatedAt_def
        c1_E1_def c1_E2_def c1_E3_def)
  have "getById_state [c1_E1, c1_E2, c1_E3] ''X'' k =
          last_write (map changes (sortedEvents [c1_E1, c1_E2, c1_E3] ''X'')) k" for k
    using C1_getById_replays_in_time_order [of "''t''" "[c1_E1, c1_E2, c1_E3]" "''X''"]
    by blast
  then have "getById_state [c1_E1, c1_E2, c1_E3] ''X'' k =
          last_write (map changes [c1_E1, c1_E3, c1_E2]) k" for k
    by (simp only: s)
  then have "getById_state [c1_E1, c1_E2, c1_E3] ''X'' k =
          ([''a'' \<mapsto> JNum 2, ''b'' \<mapsto> JNum 1]) k" for k
    by (simp add: c1_E1_def c1_E2_def c1_E3_def)
  then have "getById_state [c1_E1, c1_E2, c1_E3] ''X'' = [''a'' \<mapsto> JNum 2, ''b'' \<mapsto> JNum 1]"
    by (rule ext)
  then show ?thesis using s by simp
qed

subsection \<open>C2: an event survives the store\<close>

text \<open>
  C2. For every event \<open>e\<close> of either variant, \<open>fromState (toState e)\<close> succeeds and gives
  \<open>e\<close> itself: same variant (tag), same \<open>aggregateId\<close>, same \<open>createdAt\<close>, same \<open>changes\<close>.
  That holds whatever the clock says (\<open>now\<close> is arbitrary), so the timestamp is the
  original one, not a new one; the record in between carries the tag and the timestamp of
  \<open>e\<close>.
\<close>

theorem C2_roundtrip:
  "DomainEvent_fromState now (DomainEvent_toState e) = Inr e
   \<and> s_nom (DomainEvent_toState e) = nom e
   \<and> s_createdAt (DomainEvent_toState e) = createdAt e"
proof -
  have "DomainEvent_fromState now (DomainEvent_toState e) = Inr e"
    by (rule fromState_toState)
  moreover have "s_nom (DomainEvent_toState e) = nom e"
    by (simp add: DomainEvent_toState_def)
  moreover have "s_createdAt (DomainEvent_toState e) = createdAt e"
    by (simp add: DomainEvent_toState_def)
  ultimately show ?thesis by simp
qed

subsection \<open>C3: the dispatch on the tag\<close>

text \<open>Two records with different unknown tags fail with one and the same error value,
  the \<^verbatim>\<open>Error\<close> with the fixed message: the error does not tell which tag was met.\<close>

theorem C3_counterexample:
  "DomainEvent_fromState ''2021-02-02T00:00:00.000Z'' c3_nope = Inl (Error unknown_message)
   \<and> DomainEvent_fromState ''2021-02-02T00:00:00.000Z'' c3_other = Inl (Error unknown_message)
   \<and> s_nom c3_nope \<noteq> s_nom c3_other"
  by (simp add: DomainEvent_fromState_def c3_nope_def c3_other_def)

text \<open>
  C3, as the code has it. A record tagged \<^verbatim>\<open>FORMATION_CREEE\<close> or \<^verbatim>\<open>FORMATION_PLANIFIEE\<close>
  is rebuilt as the matching variant with the record's \<open>aggregateId\<close>, \<open>changes\<close> and
  \<open>createdAt\<close>, and never fails; a record with any other tag fails with the \<^verbatim>\<open>Error\<close>
  whose message is the fixed text, the same for every such tag.
\<close>

theorem C3_fromState_dispatch:
  "(s_nom r = ''FORMATION_CREEE'' \<longrightarrow>
      DomainEvent_fromState now r =
        Inr (FormationCreee (s_aggregateId r) (s_changes r) (s_createdAt r)))
   \<and> (s_nom r = ''FORMATION_PLANIFIEE'' \<longrightarrow>
      DomainEvent_fromState now r =
        Inr (FormationPlanifiee (s_aggregateId r) (s_changes r) (s_createdAt r)))
   \<and> (s_nom r \<noteq> ''FORMATION_CREEE'' \<and> s_nom r \<noteq> ''FORMATION_PLANIFIEE'' \<longrightarrow>
      DomainEvent_fromState now r = Inl (Error unknown_message))"
  by (simp add: DomainEvent_fromState_def DomainEvent_ctor_def)

theorem C3_witness:
  "DomainEvent_fromState ''2021-02-02T00:00:00.000Z'' c3_known =
     Inr (FormationPlanifiee (JStr ''X'') [''date'' \<mapsto> JStr ''2021-05-01'']
            ''2021-01-01T00:00:00.001Z'')
   \<and> DomainEvent_fromState ''2021-02-02T00:00:00.000Z'' c3_nope = Inl (Error unknown_message)"
proof -
  have k: "s_nom c3_known = ''FORMATION_PLANIFIEE''" by (simp add: c3_known_def)
  have n: "s_nom c3_nope \<noteq> ''FORMATION_CREEE'' \<and> s_nom c3_nope \<noteq> ''FORMATION_PLANIFIEE''"
    by (simp add: c3_nope_def)
  have "DomainEvent_fromState ''2021-02-02T00:00:00.000Z'' c3_known =
        Inr (FormationPlanifiee (s_aggregateId c3_known) (s_changes c3_known) (s_createdAt c3_known))"
    using C3_fromState_dispatch [of c3_known "''2021-02-02T00:00:00.000Z''"] k by blast
  moreover have "DomainEvent_fromState ''2021-02-02T00:00:00.000Z'' c3_nope = Inl (Error unknown_message)"
    using C3_fromState_dispatch [of c3_nope "''2021-02-02T00:00:00.000Z''"] n by blast
  ultimately show ?thesis by (simp add: c3_known_def)
qed

subsection \<open>C4: persist appends the pending events and keeps them pending\<close>

text \<open>
  C4. For every store and every aggregate \<open>a\<close>, \<open>persist\<close> leaves the store with its former
  records followed by the records of \<open>a\<close>'s pending events, in their order, and leaves \<open>a\<close>
  as it was, pending list included; persisting the same aggregate again appends the same
  records a second time.
\<close>

theorem C4_persist_appends:
  "FormationRepository_persist st a =
     (st\<lparr>store_events := store_events st @ map DomainEvent_toState (events a)\<rparr>, a)
   \<and> FormationRepository_persist (fst (FormationRepository_persist st a))
        (snd (FormationRepository_persist st a)) =
     (st\<lparr>store_events := store_events st @ map DomainEvent_toState (events a)
                                         @ map DomainEvent_toState (events a)\<rparr>, a)"
  by (simp add: FormationRepository_persist_def forEach_add_eq)

subsection \<open>C5: creation, then read\<close>

text \<open>
  C5. \<open>creer\<close> builds an aggregate with the given id, name and duration, no date and no
  instructor, and one pending \<open>FormationCreee\<close> event whose payload is
  \<^verbatim>\<open>{id, nom, dureeEnHeures}\<close>. Persisted into an empty store and read back by its id, it
  comes back with the same id, name and duration, date and instructor \<^verbatim>\<open>null\<close>, and nothing
  pending. Stated for every id, name, duration and clock; the instance of the
  specification is \<open>'X'\<close>, \<open>'Name'\<close>, \<open>10\<close>.
\<close>

theorem C5_create_persist_read:
  "Formation_creer now i n d =
     \<lparr>events = [FormationCreee (JStr i)
                  [''id'' \<mapsto> JStr i, ''nom'' \<mapsto> JStr n, ''dureeEnHeures'' \<mapsto> JNum d] now],
      f_id = JStr i, f_nom = JStr n, f_dureeEnHeures = JNum d, f_date = JNull,
      f_nomFormateur = JNull\<rparr>
   \<and> snd (FormationRepository_getById now'
            (fst (FormationRepository_persist InMemoryEventStore_new (Formation_creer now i n d))) i) =
     Inr \<lparr>events = [], f_id = JStr i, f_nom = JStr n, f_dureeEnHeures = JNum d, f_date = JNull,
          f_nomFormateur = JNull\<rparr>"
proof -
  have "getById_state (events (Formation_creer now i n d)) i =
          [''id'' \<mapsto> JStr i, ''nom'' \<mapsto> JStr n, ''dureeEnHeures'' \<mapsto> JNum d]"
    by (simp add: Formation_creer_eq getById_state_def sortedEvents_def eventsForAggregate_def
        Array_sort_def spread_def)
  then have "Formation_fromState (getById_state (events (Formation_creer now i n d)) i) =
     \<lparr>events = [], f_id = JStr i, f_nom = JStr n, f_dureeEnHeures = JNum d, f_date = JNull,
          f_nomFormateur = JNull\<rparr>"
    by (simp add: Formation_fromState_def Formation_ctor_def getProp_def nullish_def)
  then show ?thesis
    by (simp add: persist_new getById_stored Formation_creer_eq)
qed

theorem C5_witness:
  "snd (FormationRepository_getById ''2021-01-02T00:00:00.000Z''
         (fst (FormationRepository_persist InMemoryEventStore_new
                (Formation_creer ''2021-01-01T00:00:00.000Z'' ''X'' ''Name'' 10))) ''X'') =
     Inr \<lparr>events = [], f_id = JStr ''X'', f_nom = JStr ''Name'', f_dureeEnHeures = JNum 10,
          f_date = JNull, f_nomFormateur = JNull\<rparr>"
  using C5_create_persist_read [of "''2021-01-01T00:00:00.000Z''" "''X''" "''Name''" 10
      "''2021-01-02T00:00:00.000Z''"]
  by blast

subsection \<open>C6: scheduling\<close>

text \<open>The two handles: after \<open>f.planifierLe('2021-05-01', 'Alice')\<close>, \<open>persist(f)\<close> and a
  reload, the aggregate shows the date and instructor of the other handle's event, which
  carries the later \<open>createdAt\<close>; it does not show those given to \<open>f\<close>.\<close>

theorem C6_counterexample:
  "snd (FormationRepository_getById ''2021-01-01T00:00:00.002Z'' c6_store0 ''X'') = Inr c6_loaded
   \<and> snd (FormationRepository_getById ''2021-01-01T00:00:00.010Z'' c6_store2 ''X'') =
       Inr (c6_loaded\<lparr>f_date := JStr ''2021-06-01'', f_nomFormateur := JStr ''Bob''\<rparr>)
   \<and> snd (FormationRepository_getById ''2021-01-01T00:00:00.010Z'' c6_store2 ''X'') \<noteq>
       Inr (c6_loaded\<lparr>f_date := JStr ''2021-05-01'', f_nomFormateur := JStr ''Alice''\<rparr>)"
proof -
  have r: "snd (FormationRepository_getById ''2021-01-01T00:00:00.010Z'' c6_store2 ''X'') =
       Inr (c6_loaded\<lparr>f_date := JStr ''2021-06-01'', f_nomFormateur := JStr ''Bob''\<rparr>)"
    unfolding c6_store2_eq getById_stored
    by (simp add: getById_state_def sortedEvents_def eventsForAggregate_def
      Array_sort_def byCreatedAt_def spread_def Formation_fromState_def Formation_ctor_def
      getProp_def nullish_def c6_loaded_def)
  have "snd (FormationRepository_getById ''2021-01-01T00:00:00.010Z'' c6_store2 ''X'') \<noteq>
       Inr (c6_loaded\<lparr>f_date := JStr ''2021-05-01'', f_nomFormateur := JStr ''Alice''\<rparr>)"
    unfolding r by (simp add: c6_loaded_def)
  with r c6_load show ?thesis by simp
qed

text \<open>
  C6, as the code has it. For every Formation \<open>f\<close>, \<open>planifierLe\<close> sets the date and the
  instructor to its arguments and appends one \<open>FormationPlanifiee\<close> event with payload
  \<^verbatim>\<open>{date, nomFormateur}\<close>, every other field (id, name, duration) staying as it was. If
  moreover \<open>f\<close>'s id is the string \<open>i\<close> and no event of aggregate \<open>i\<close>, in the store or
  pending on \<open>f\<close>, has a \<open>createdAt\<close> later than the new event's, then after \<open>persist\<close> the
  reload by \<open>getById i\<close> is the reload there would have been without the scheduling, with
  the date and the instructor replaced by the new ones: id, name and duration are not
  touched. When \<open>f\<close> is itself what \<open>getById i\<close> returned from that store, the reload is \<open>f\<close>
  with the new date and instructor.
\<close>

theorem C6_planifierLe:
  fixes evs :: "obj DomainEvent list"
  shows "Formation_planifierLe now d n f =
       f\<lparr>f_date := JStr d, f_nomFormateur := JStr n,
         events := events f @
           [FormationPlanifiee (f_id f) [''date'' \<mapsto> JStr d, ''nomFormateur'' \<mapsto> JStr n] now]\<rparr>
   \<and> (f_id f = JStr i \<and>
       (\<forall>e\<in>set (evs @ events f). aggregateId e = JStr i \<longrightarrow> createdAt e \<le> now) \<longrightarrow>
         snd (FormationRepository_getById now'
               (fst (FormationRepository_persist (forEach_add InMemoryEventStore_new evs) f)) i) =
           Inr (Formation_fromState (getById_state (evs @ events f) i))
       \<and> snd (FormationRepository_getById now'
               (fst (FormationRepository_persist (forEach_add InMemoryEventStore_new evs)
                      (Formation_planifierLe now d n f))) i) =
           Inr ((Formation_fromState (getById_state (evs @ events f) i))
                  \<lparr>f_date := JStr d, f_nomFormateur := JStr n\<rparr>)
       \<and> (snd (FormationRepository_getById now0 (forEach_add InMemoryEventStore_new evs) i) = Inr f
            \<longrightarrow> snd (FormationRepository_getById now'
               (fst (FormationRepository_persist (forEach_add InMemoryEventStore_new evs)
                      (Formation_planifierLe now d n f))) i) =
           Inr (f\<lparr>f_date := JStr d, f_nomFormateur := JStr n\<rparr>)))"
proof (intro conjI impI)
  show "Formation_planifierLe now d n f =
       f\<lparr>f_date := JStr d, f_nomFormateur := JStr n,
         events := events f @
           [FormationPlanifiee (f_id f) [''date'' \<mapsto> JStr d, ''nomFormateur'' \<mapsto> JStr n] now]\<rparr>"
    by (rule planifierLe_eq)
next
  assume h: "f_id f = JStr i \<and>
       (\<forall>e\<in>set (evs @ events f). aggregateId e = JStr i \<longrightarrow> createdAt e \<le> now)"
  show "snd (FormationRepository_getById now'
               (fst (FormationRepository_persist (forEach_add InMemoryEventStore_new evs) f)) i) =
           Inr (Formation_fromState (getById_state (evs @ events f) i))"
    by (simp add: persist_stored getById_stored)
next
  assume h: "f_id f = JStr i \<and>
       (\<forall>e\<in>set (evs @ events f). aggregateId e = JStr i \<longrightarrow> createdAt e \<le> now)"
  let ?new = "FormationPlanifiee (f_id f) [''date'' \<mapsto> JStr d, ''nomFormateur'' \<mapsto> JStr n] now"
  have ev: "events (Formation_planifierLe now d n f) = events f @ [?new]"
    by (simp add: planifierLe_eq)
  have a: "aggregateId ?new = JStr i" using h by simp
  have b: "\<forall>e\<in>set (evs @ events f). aggregateId e = JStr i \<longrightarrow> createdAt e \<le> createdAt ?new"
    using h by simp
  have st: "getById_state ((evs @ events f) @ [?new]) i =
          spread (getById_state (evs @ events f) i) (changes ?new)"
    using a b by (rule getById_state_snoc)
  have "snd (FormationRepository_getById now'
               (fst (FormationRepository_persist (forEach_add InMemoryEventStore_new evs)
                      (Formation_planifierLe now d n f))) i) =
        Inr (Formation_fromState (getById_state ((evs @ events f) @ [?new]) i))"
    by (simp add: persist_stored getById_stored ev)
  also have "\<dots> = Inr ((Formation_fromState (getById_state (evs @ events f) i))
                  \<lparr>f_date := JStr d, f_nomFormateur := JStr n\<rparr>)"
    unfolding st by (simp add: fromState_scheduled)
  finally show r: "snd (FormationRepository_getById now'
               (fst (FormationRepository_persist (forEach_add InMemoryEventStore_new evs)
                      (Formation_planifierLe now d n f))) i) =
           Inr ((Formation_fromState (getById_state (evs @ events f) i))
                  \<lparr>f_date := JStr d, f_nomFormateur := JStr n\<rparr>)" .
  assume l: "snd (FormationRepository_getById now0 (forEach_add InMemoryEventStore_new evs) i) = Inr f"
  have "f = Formation_fromState (getById_state evs i)" and "events f = []"
    using getById_Inr_loaded [OF l] by simp_all
  then have "Formation_fromState (getById_state (evs @ events f) i) = f" by simp
  then show "snd (FormationRepository_getById now'
               (fst (FormationRepository_persist (forEach_add InMemoryEventStore_new evs)
                      (Formation_planifierLe now d n f))) i) =
           Inr (f\<lparr>f_date := JStr d, f_nomFormateur := JStr n\<rparr>)"
    using r by simp
qed

text \<open>Create, persist, load, schedule, persist, reload.\<close>

theorem C6_witness:
  "snd (FormationRepository_getById ''2021-01-01T00:00:00.010Z''
          (fst (FormationRepository_persist c6_store0 c6_f)) ''X'') =
     Inr (c6_loaded\<lparr>f_date := JStr ''2021-05-01'', f_nomFormateur := JStr ''Alice''\<rparr>)"
proof -
  have h: "f_id c6_loaded = JStr ''X'' \<and>
     (\<forall>e\<in>set (events c6_created @ events c6_loaded).
         aggregateId e = JStr ''X'' \<longrightarrow> createdAt e \<le> ''2021-01-01T00:00:00.005Z'')"
    by (simp add: c6_created_events c6_loaded_def)
  have l: "snd (FormationRepository_getById ''2021-01-01T00:00:00.002Z''
             (forEach_add InMemoryEventStore_new (events c6_created)) ''X'') = Inr c6_loaded"
    using c6_load [of "''2021-01-01T00:00:00.002Z''"] by (simp add: c6_store0_eq)
  have "snd (FormationRepository_getById ''2021-01-01T00:00:00.010Z''
          (fst (FormationRepository_persist (forEach_add InMemoryEventStore_new (events c6_created))
             (Formation_planifierLe ''2021-01-01T00:00:00.005Z'' ''2021-05-01'' ''Alice'' c6_loaded)))
          ''X'') =
     Inr (c6_loaded\<lparr>f_date := JStr ''2021-05-01'', f_nomFormateur := JStr ''Alice''\<rparr>)"
    using C6_planifierLe [of "''2021-01-01T00:00:00.005Z''" "''2021-05-01''" "''Alice''" c6_loaded
        "''X''" "events c6_created" "''2021-01-01T00:00:00.010Z''" "''2021-01-01T00:00:00.002Z''"]
      h l by blast
  then show ?thesis by (simp add: c6_store0_eq c6_f_def)
qed

subsection \<open>C7: list\<close>

text \<open>The element \<open>list\<close> returned holds the address of the payload the store's record
  holds; a property written through it changes what the store's record says.\<close>

theorem C7_counterexample:
  "snd (heap_list ''2021-01-01T00:00:00.002Z'' 0 c7_heap1) = Inr 1
   \<and> arrays c7_heap2 ! 1 = [1]
   \<and> changes (event_objects c7_heap2 ! (arrays c7_heap2 ! 1 ! 0)) = 0
   \<and> store_contents
        (write_payload (changes (event_objects c7_heap2 ! (arrays c7_heap2 ! 1 ! 0)))
           ''nom'' (JStr ''Changed'') c7_heap2) 0
       \<noteq> store_contents c7_heap2 0"
proof -
  have a: "snd (heap_list ''2021-01-01T00:00:00.002Z'' 0 c7_heap1) = Inr 1"
    by (simp add: c7_list)
  have b: "arrays c7_heap2 ! 1 = [1]" by (simp add: c7_heap2_eq)
  have c: "changes (event_objects c7_heap2 ! (arrays c7_heap2 ! 1 ! 0)) = 0"
    by (simp add: c7_heap2_eq c7_event_def)
  have d: "store_contents (write_payload 0 ''nom'' (JStr ''Changed'') c7_heap2) 0
       \<noteq> store_contents c7_heap2 0"
  proof
    assume "store_contents (write_payload 0 ''nom'' (JStr ''Changed'') c7_heap2) 0
       = store_contents c7_heap2 0"
    then have "[''nom'' \<mapsto> JStr ''Changed''] = [''nom'' \<mapsto> JStr ''Name'']"
      by (simp add: store_contents_def store_records_def write_payload_def c7_heap2_eq
          DomainEvent_toState_def c7_event_def)
    then have "([''nom'' \<mapsto> JStr ''Changed'']) ''nom'' = ([''nom'' \<mapsto> JStr ''Name'']) ''nom''"
      by (rule arg_cong)
    then show False by simp
  qed
  from a b c d show ?thesis by (simp only: c) simp
qed

text \<open>
  C7, as the code has it. For every store state (a store that holds the records of the
  events \<open>evs\<close> added to it), \<open>list\<close> returns a new array, at an address that named no
  array before the call, of new event objects, at addresses that named no event object
  before the call; read in order they are the events \<open>evs\<close>: every record of the log,
  converted, in append order. Whatever the caller then writes to that array and to the
  fields of event objects, in any number and order, the store holds the records it held
  and they say what they said. The next call returns yet another array.
\<close>

theorem C7_list_fresh:
  assumes ok: "heap_store_ok h st"
    and rep: "store_records h st = store_events (forEach_add InMemoryEventStore_new evs)"
  shows "snd (heap_list now st h) = Inr (length (arrays h))
   \<and> arrays (fst (heap_list now st h)) ! length (arrays h) =
       [length (event_objects h) ..< length (event_objects h) + length evs]
   \<and> map (\<lambda>e. event_objects (fst (heap_list now st h)) ! e)
         (arrays (fst (heap_list now st h)) ! length (arrays h)) = evs
   \<and> (\<forall>ws. store_records (caller_writes (length (arrays h)) ws (fst (heap_list now st h))) st =
             store_records h st
          \<and> store_contents (caller_writes (length (arrays h)) ws (fst (heap_list now st h))) st =
             store_contents h st)
   \<and> snd (heap_list now' st (fst (heap_list now st h))) = Inr (Suc (length (arrays h)))"
proof -
  let ?a = "length (arrays h)"
  let ?n = "length (event_objects h)"
  let ?h' = "h\<lparr>event_objects := event_objects h @ evs,
               arrays := arrays h @ [[?n ..< ?n + length evs]]\<rparr>"
  have st: "st < ?a" using ok by (simp add: heap_store_ok_def)
  have m: "map_fromState now (store_records h st) = Inr evs" for now
    by (simp add: rep store_events_forEach_add InMemoryEventStore_new_def map_fromState_toState)
  have l: "heap_list now st h = (?h', Inr ?a)"
    using m by (rule heap_list_ok)
  have r': "store_records ?h' st = store_records h st"
    using st by (simp add: store_records_def nth_append)
  have p': "payloads ?h' = payloads h" by simp
  have c1: "snd (heap_list now st h) = Inr ?a" by (simp add: l)
  have c2: "arrays (fst (heap_list now st h)) ! ?a = [?n ..< ?n + length evs]"
    by (simp add: l)
  have "map (\<lambda>e. (event_objects h @ evs) ! e) [?n ..< ?n + length evs] = evs"
    by (rule map_nth_appended)
  then have c3: "map (\<lambda>e. event_objects (fst (heap_list now st h)) ! e)
         (arrays (fst (heap_list now st h)) ! ?a) = evs"
    by (simp add: l)
  have c4: "store_records (caller_writes ?a ws (fst (heap_list now st h))) st = store_records h st
          \<and> store_contents (caller_writes ?a ws (fst (heap_list now st h))) st = store_contents h st"
    for ws
  proof -
    have ne: "?a \<noteq> st" using st by simp
    have w: "store_records (caller_writes ?a ws ?h') st = store_records ?h' st"
      and pw: "payloads (caller_writes ?a ws ?h') = payloads ?h'"
      using store_records_caller_writes [OF ne, of ws ?h'] by simp_all
    have "store_contents (caller_writes ?a ws ?h') st = store_contents h st"
      by (rule store_contents_cong) (simp_all add: w pw r')
    then show ?thesis by (simp add: l w r')
  qed
  have "map_fromState now' (store_records ?h' st) = Inr evs"
    by (simp add: r' m)
  from heap_list_ok [OF this]
  have c5: "snd (heap_list now' st (fst (heap_list now st h))) = Inr (Suc ?a)"
    by (simp add: l)
  from c1 c2 c3 c4 c5 show ?thesis by blast
qed

theorem C7_witness:
  "snd (heap_list ''2021-01-01T00:00:00.002Z'' 0 c7_heap1) = Inr 1
   \<and> arrays c7_heap2 ! 1 = [1]
   \<and> map (\<lambda>e. event_objects c7_heap2 ! e) (arrays c7_heap2 ! 1) = [c7_event]
   \<and> store_contents
        (caller_writes 1
           [ArrayWrite [], EventWrite 1 (FormationPlanifiee (JStr ''Z'') 0 ''1999-01-01T00:00:00.000Z'')]
           c7_heap2) 0
       = store_contents c7_heap1 0
   \<and> snd (heap_list ''2021-01-01T00:00:00.003Z'' 0 c7_heap2) = Inr 2"
proof -
  have ok: "heap_store_ok c7_heap1 0"
    by (simp add: heap_store_ok_def c7_heap1_eq DomainEvent_toState_def c7_event_def)
  have rep: "store_records c7_heap1 0 =
      store_events (forEach_add InMemoryEventStore_new [c7_event])"
    by (simp add: store_records_def c7_heap1_eq store_events_forEach_add InMemoryEventStore_new_def)
  have l: "length (arrays c7_heap1) = 1" "length (event_objects c7_heap1) = 1"
    by (simp_all add: c7_heap1_eq)
  note t = C7_list_fresh [OF ok rep, of "''2021-01-01T00:00:00.002Z''"
      "''2021-01-01T00:00:00.003Z''", unfolded c7_heap2_def [symmetric] l]
  have a: "snd (heap_list ''2021-01-01T00:00:00.002Z'' 0 c7_heap1) = Inr 1"
    using t by blast
  have b: "arrays c7_heap2 ! 1 = [1]"
    using t by simp
  have c: "map (\<lambda>e. event_objects c7_heap2 ! e) (arrays c7_heap2 ! 1) = [c7_event]"
    using t by blast
  have d: "store_contents (caller_writes 1 ws c7_heap2) 0 = store_contents c7_heap1 0" for ws
    using t by blast
  have e: "snd (heap_list ''2021-01-01T00:00:00.003Z'' 0 c7_heap2) = Inr 2"
    using t by simp
  from a b c d e show ?thesis by blast
qed

subsection \<open>C8: rehydration\<close>



subsection \<open>C9: an id without events\<close>

text \<open>
  C9. For every store and every \<open>i\<close> that no event of the store has as \<open>aggregateId\<close>, the
  merged state is the empty mapping and \<open>getById i\<close> returns, without an error, the
  aggregate whose id, name and duration are \<^verbatim>\<open>undefined\<close>, whose date and instructor are
  \<^verbatim>\<open>null\<close>, and which has nothing pending.
\<close>

theorem C9_no_events_degenerate:
  fixes evs :: "obj DomainEvent list"
  assumes "\<forall>e\<in>set evs. aggregateId e \<noteq> JStr i"
  shows "getById_state evs i = Map.empty
    \<and> FormationRepository_getById now (forEach_add InMemoryEventStore_new evs) i =
        (forEach_add InMemoryEventStore_new evs,
         Inr \<lparr>events = [], f_id = JUndefined, f_nom = JUndefined,
              f_dureeEnHeures = JUndefined, f_date = JNull, f_nomFormateur = JNull\<rparr>)"
proof -
  have s: "getById_state evs i = Map.empty"
    by (simp add: getById_state_def sortedEvents_none [OF assms])
  show ?thesis
    by (simp add: s getById_stored fromState_empty)
qed

theorem C9_witness:
  "FormationRepository_getById ''2021-01-02T00:00:00.000Z''
      (forEach_add InMemoryEventStore_new [c9_other]) ''UNKNOWN'' =
     (forEach_add InMemoryEventStore_new [c9_other],
      Inr \<lparr>events = [], f_id = JUndefined, f_nom = JUndefined,
           f_dureeEnHeures = JUndefined, f_date = JNull, f_nomFormateur = JNull\<rparr>)"
proof -
  have "\<forall>e\<in>set [c9_other]. aggregateId e \<noteq> JStr ''UNKNOWN''"
    by (simp add: c9_other_def)
  from C9_no_events_degenerate [OF this] show ?thesis by blast
qed

subsection \<open>C10: getById only reads\<close>

text \<open>
  C10. For every store state and every \<open>i\<close>, the store after \<open>getById i\<close> is the store
  before it, whether the call returns an aggregate or throws.
\<close>

theorem C10_getById_leaves_store:
  "fst (FormationRepository_getById now st i) = st"
  by (simp add: FormationRepository_getById_def split: sum.splits)

end
